theory Spec2Isabelle
  imports Main
begin

section \<open>Text\<close>

text \<open>
  A Python \<open>str\<close> is a sequence of Unicode code points, so \<open>len\<close> counts code points.
  The messages of the service are Russian; they are written here as the code points of
  the literals in the source.
\<close>

type_synonym pystr = "nat list"

definition ascii :: "string \<Rightarrow> pystr" where
  "ascii s = map of_char s"

section \<open>Records of \<open>app/models.py\<close>\<close>

record UserBase =
  username :: pystr
  email :: pystr

text \<open>\<open>UserCreate\<close> adds nothing to \<open>UserBase\<close> (its body is \<open>pass\<close>).\<close>

type_synonym UserCreate = UserBase

record UserReturn = UserBase +
  id' :: int

record Todo =
  title :: pystr
  description :: pystr
  is_complited :: bool

record TodoReturn = Todo +
  id' :: int

section \<open>The storage gateway\<close>

text \<open>
  Modelled from the spec: the storage gateway (the object \<open>database\<close> of
  \<open>app/main.py\<close> is an instance of the library class \<open>Database\<close>, and the tables
  live in the SQL engine; neither is code of the repository). The store holds the two
  tables \<open>users(id, username, email)\<close> and \<open>todos(id, title, description,
  is_complited)\<close>, each keyed by its primary key \<open>id\<close>, and for each table the next id
  the store will assign. \<open>failure\<close> is an underlying storage error that is pending (lost
  connectivity, say) with its text: while it is there every statement raises it.
  \<open>id_bits\<close> is the width of the \<open>id\<close> columns: they hold the integers from \<open>- 2 ^ id_bits\<close>
  up to, but not including, \<open>2 ^ id_bits\<close> (31 for the column type \<open>integer\<close>, 63 for
  \<open>bigint\<close>). The handlers take any Python integer as an id; an id that the column cannot
  hold cannot be bound to the statement, and the gateway raises.
\<close>

record Database =
  failure :: "pystr option"
  id_bits :: nat
  users :: "int \<rightharpoonup> UserBase"
  users_id_seq :: int
  todos :: "int \<rightharpoonup> Todo"
  todos_id_seq :: int

definition in_range :: "Database \<Rightarrow> int \<Rightarrow> bool" where
  "in_range db i = (- (2 ^ id_bits db) \<le> i \<and> i < 2 ^ id_bits db)"

text \<open>The text of the error the store raises when an assigned id is already taken.\<close>

definition unique_violation :: pystr where
  "unique_violation = ascii ''duplicate key value violates unique constraint''"

text \<open>The text of the error for an id that the column cannot hold.\<close>

definition out_of_range :: pystr where
  "out_of_range = ascii ''value out of range''"

text \<open>
  Modelled from the spec: the storage error, if there is one, that a statement with the
  id \<open>i\<close> meets before it reaches the table: the failure that is pending, or else that
  \<open>i\<close> is out of the range of the column.
\<close>

definition storage_error :: "Database \<Rightarrow> int \<Rightarrow> pystr option" where
  "storage_error db i =
     (case failure db of
        Some e \<Rightarrow> Some e
      | None \<Rightarrow> if in_range db i then None else Some out_of_range)"

text \<open>
  A gateway call either raises (\<open>Inl\<close> with the text \<open>str(e)\<close> of the exception) or
  returns (\<open>Inr\<close>); it also yields the store after the statement.

  Modelled from the spec: \<open>INSERT INTO users (username, email) VALUES (:username, :email)
  RETURNING id\<close>. The store assigns the next id of the table; an id that the column
  cannot hold is an error, and the id is a primary key, so an id already in use is a
  constraint violation.
\<close>

definition execute_insert_users :: "Database \<Rightarrow> UserBase \<Rightarrow> (pystr + int) \<times> Database" where
  "execute_insert_users db u =
     (case storage_error db (users_id_seq db) of
        Some e \<Rightarrow> (Inl e, db)
      | None \<Rightarrow>
          (let i = users_id_seq db; db1 = db\<lparr>users_id_seq := i + 1\<rparr>
           in if users db i \<noteq> None then (Inl unique_violation, db1)
              else (Inr i, db1\<lparr>users := (users db)(i \<mapsto> u)\<rparr>)))"

text \<open>
  Modelled from the spec: \<open>SELECT id, username, email FROM users WHERE id = :user_id\<close>,
  fetch-one: the row, or nothing when no row matches.
\<close>

definition fetch_one_users :: "Database \<Rightarrow> int \<Rightarrow> pystr + (int \<times> pystr \<times> pystr) option" where
  "fetch_one_users db user_id =
     (case storage_error db user_id of
        Some e \<Rightarrow> Inl e
      | None \<Rightarrow>
          (case users db user_id of
             None \<Rightarrow> Inr None
           | Some u \<Rightarrow> Inr (Some (user_id, username u, email u))))"

text \<open>
  Modelled from the spec: \<open>UPDATE users SET username = :username, email = :email WHERE
  id = :user_id RETURNING id\<close>, execute-returning-id: the id of the row, or nothing
  when zero rows matched.
\<close>

definition execute_update_users ::
  "Database \<Rightarrow> int \<Rightarrow> UserBase \<Rightarrow> (pystr + int option) \<times> Database" where
  "execute_update_users db user_id u =
     (case storage_error db user_id of
        Some e \<Rightarrow> (Inl e, db)
      | None \<Rightarrow>
          (case users db user_id of
             None \<Rightarrow> (Inr None, db)
           | Some old \<Rightarrow> (Inr (Some user_id), db\<lparr>users := (users db)(user_id \<mapsto> u)\<rparr>)))"

text \<open>Modelled from the spec: \<open>DELETE FROM users WHERE id = :user_id RETURNING id\<close>.\<close>

definition execute_delete_users :: "Database \<Rightarrow> int \<Rightarrow> (pystr + int option) \<times> Database" where
  "execute_delete_users db user_id =
     (case storage_error db user_id of
        Some e \<Rightarrow> (Inl e, db)
      | None \<Rightarrow>
          (case users db user_id of
             None \<Rightarrow> (Inr None, db)
           | Some old \<Rightarrow> (Inr (Some user_id), db\<lparr>users := (users db)(user_id := None)\<rparr>)))"

text \<open>
  Modelled from the spec: \<open>INSERT INTO todos(title, description, is_complited) VALUES
  (:title, :description, :is_complited) RETURNING id\<close>.
\<close>

definition execute_insert_todos :: "Database \<Rightarrow> Todo \<Rightarrow> (pystr + int) \<times> Database" where
  "execute_insert_todos db t =
     (case storage_error db (todos_id_seq db) of
        Some e \<Rightarrow> (Inl e, db)
      | None \<Rightarrow>
          (let i = todos_id_seq db; db1 = db\<lparr>todos_id_seq := i + 1\<rparr>
           in if todos db i \<noteq> None then (Inl unique_violation, db1)
              else (Inr i, db1\<lparr>todos := (todos db)(i \<mapsto> t)\<rparr>)))"

text \<open>
  Modelled from the spec: \<open>SELECT id, title, description, is_complited FROM todos WHERE
  id = :todo_id\<close>.
\<close>

definition fetch_one_todos ::
  "Database \<Rightarrow> int \<Rightarrow> pystr + (int \<times> pystr \<times> pystr \<times> bool) option" where
  "fetch_one_todos db todo_id =
     (case storage_error db todo_id of
        Some e \<Rightarrow> Inl e
      | None \<Rightarrow>
          (case todos db todo_id of
             None \<Rightarrow> Inr None
           | Some t \<Rightarrow> Inr (Some (todo_id, title t, description t, is_complited t))))"

text \<open>
  Modelled from the spec: \<open>UPDATE todos SET title = :title, description = :description,
  is_complited = :is_complited WHERE id = :todo_id RETURNING id\<close>.
\<close>

definition execute_update_todos ::
  "Database \<Rightarrow> int \<Rightarrow> Todo \<Rightarrow> (pystr + int option) \<times> Database" where
  "execute_update_todos db todo_id t =
     (case storage_error db todo_id of
        Some e \<Rightarrow> (Inl e, db)
      | None \<Rightarrow>
          (case todos db todo_id of
             None \<Rightarrow> (Inr None, db)
           | Some old \<Rightarrow> (Inr (Some todo_id), db\<lparr>todos := (todos db)(todo_id \<mapsto> t)\<rparr>)))"

text \<open>Modelled from the spec: \<open>DELETE FROM todos WHERE id = :todo_id RETURNING id\<close>.\<close>

definition execute_delete_todos :: "Database \<Rightarrow> int \<Rightarrow> (pystr + int option) \<times> Database" where
  "execute_delete_todos db todo_id =
     (case storage_error db todo_id of
        Some e \<Rightarrow> (Inl e, db)
      | None \<Rightarrow>
          (case todos db todo_id of
             None \<Rightarrow> (Inr None, db)
           | Some old \<Rightarrow> (Inr (Some todo_id), db\<lparr>todos := (todos db)(todo_id := None)\<rparr>)))"

section \<open>The handlers of \<open>app/main.py\<close>\<close>

record HTTPException =
  status_code :: nat
  detail :: pystr

text \<open>A \<open>dict\<close> from text to text, in the order it is written.\<close>

type_synonym pydict = "(string \<times> pystr) list"

text \<open>The string literals of the handlers.\<close>

definition create_user_error :: pystr where
  "create_user_error = [1054, 1096, 1080, 1073, 1082, 1072, 32, 1087, 1088, 1080, 32, 1089,
     1086, 1079, 1076, 1072, 1085, 1080, 1080, 32, 1087, 1086, 1083, 1100, 1079, 1086, 1074,
     1072, 1090, 1077, 1083, 1103, 58, 32]"

definition get_user_error :: pystr where
  "get_user_error = [1054, 1096, 1080, 1073, 1082, 1072, 32, 1087, 1086, 1083, 1091, 1095,
     1077, 1085, 1080, 1103, 32, 1087, 1086, 1083, 1100, 1079, 1086, 1074, 1072, 1090, 1077,
     1083, 1103, 58, 32]"

definition user_not_found :: pystr where
  "user_not_found = [1055, 1086, 1083, 1100, 1079, 1086, 1074, 1072, 1090, 1077, 1083, 1100,
     32, 1089, 32, 1091, 1082, 1072, 1079, 1072, 1085, 1085, 1099, 1084, 32, 73, 68, 32, 1085,
     1077, 32, 1085, 1072, 1081, 1076, 1077, 1085]"

definition update_user_error :: pystr where
  "update_user_error = [1054, 1096, 1080, 1073, 1082, 1072, 32, 1086, 1073, 1085, 1086, 1074,
     1083, 1077, 1085, 1080, 1103, 32, 1087, 1086, 1083, 1100, 1079, 1086, 1074, 1072, 1090,
     1077, 1083, 1103, 58, 32]"

definition user_deleted :: pystr where
  "user_deleted = [1055, 1086, 1083, 1100, 1079, 1086, 1074, 1072, 1090, 1077, 1083, 1100, 32,
     1091, 1089, 1087, 1077, 1096, 1085, 1086, 32, 1091, 1076, 1072, 1083, 1077, 1085]"

definition delete_user_error :: pystr where
  "delete_user_error = [1054, 1096, 1080, 1073, 1082, 1072, 32, 1091, 1076, 1072, 1083, 1077,
     1085, 1080, 1103, 32, 1087, 1086, 1083, 1100, 1079, 1086, 1074, 1072, 1090, 1077, 1083,
     1103, 58, 32]"

definition create_todo_error :: pystr where
  "create_todo_error = [1054, 1096, 1080, 1073, 1082, 1072, 32, 1087, 1088, 1080, 32, 1089,
     1086, 1079, 1076, 1072, 1085, 1080, 1080, 32, 1079, 1072, 1076, 1072, 1095, 1080, 58, 32]"

definition get_todo_error :: pystr where
  "get_todo_error = [1054, 1096, 1080, 1073, 1082, 1072, 32, 1087, 1086, 1083, 1091, 1095,
     1077, 1085, 1080, 1103, 32, 1079, 1072, 1076, 1072, 1095, 1080, 58, 32]"

definition todo_not_found :: pystr where
  "todo_not_found = [1047, 1072, 1076, 1072, 1095, 1072, 32, 1089, 32, 1091, 1082, 1072, 1079,
     1072, 1085, 1085, 1099, 1084, 32, 73, 68, 32, 1085, 1077, 32, 1085, 1072, 1081, 1076,
     1077, 1085, 1072]"

definition update_todo_error :: pystr where
  "update_todo_error = [1054, 1096, 1080, 1073, 1082, 1072, 32, 1086, 1073, 1085, 1086, 1074,
     1083, 1077, 1085, 1080, 1103, 32, 1079, 1072, 1076, 1072, 1095, 1080, 58, 32]"

text \<open>\<open>delete_todo\<close> writes \<open>id\<close> in lower case in its not-found text.\<close>

definition todo_not_found_delete :: pystr where
  "todo_not_found_delete = [1047, 1072, 1076, 1072, 1095, 1072, 32, 1089, 32, 1091, 1082,
     1072, 1079, 1072, 1085, 1085, 1099, 1084, 32, 105, 100, 32, 1085, 1077, 32, 1085, 1072,
     1081, 1076, 1077, 1085, 1072]"

definition todo_deleted :: pystr where
  "todo_deleted = [1047, 1072, 1076, 1072, 1095, 1072, 32, 1091, 1089, 1087, 1077, 1096, 1085,
     1086, 32, 1091, 1076, 1072, 1083, 1077, 1085, 1072]"

text \<open>\<open>return {"message: ": "Hello, World!"}\<close>\<close>

definition read_root :: pydict where
  "read_root = [(''message: '', ascii ''Hello, World!'')]"

text \<open>
  Python's \<open>not result\<close> on what \<open>database.execute\<close> returns for a statement with
  \<open>RETURNING id\<close>: \<open>None\<close> and the integer \<open>0\<close> are both false.
\<close>

fun not' :: "int option \<Rightarrow> bool" where
  "not' None = True"
| "not' (Some i) = (i = 0)"

text \<open>
  A handler is a function of the store and of its arguments. It yields the answer, \<open>Inl\<close>
  the \<open>HTTPException\<close> it raises or \<open>Inr\<close> the value it returns, and (where it runs a
  statement that writes) the store after the statement. What the gateway raises is caught
  by \<open>except Exception\<close> and becomes the 500 with the text of the error after the
  handler's own; the 404 raised inside \<open>try\<close> is passed on by \<open>except HTTPException\<close>.
  A row that \<open>fetch_one\<close> returns has columns and is not false. Where \<open>not result\<close> has
  failed, \<open>result\<close> is an integer other than 0, and \<open>the result\<close> is that integer.
\<close>

definition create_user :: "Database \<Rightarrow> UserCreate \<Rightarrow> (HTTPException + UserReturn) \<times> Database" where
  "create_user database user =
     (case execute_insert_users database user of
        (Inl e, database') \<Rightarrow>
          (Inl \<lparr>status_code = 500, detail = create_user_error @ e\<rparr>, database')
      | (Inr user_id, database') \<Rightarrow>
          (Inr \<lparr>username = username user, email = email user, UserReturn.id' = user_id\<rparr>, database'))"

definition get_user :: "Database \<Rightarrow> int \<Rightarrow> HTTPException + UserReturn" where
  "get_user database user_id =
     (case fetch_one_users database user_id of
        Inl e \<Rightarrow> Inl \<lparr>status_code = 500, detail = get_user_error @ e\<rparr>
      | Inr None \<Rightarrow> Inl \<lparr>status_code = 404, detail = user_not_found\<rparr>
      | Inr (Some (i, u, e)) \<Rightarrow> Inr \<lparr>username = u, email = e, UserReturn.id' = i\<rparr>)"

definition update_user ::
  "Database \<Rightarrow> int \<Rightarrow> UserCreate \<Rightarrow> (HTTPException + UserReturn) \<times> Database" where
  "update_user database user_id user =
     (case execute_update_users database user_id user of
        (Inl e, database') \<Rightarrow>
          (Inl \<lparr>status_code = 500, detail = update_user_error @ e\<rparr>, database')
      | (Inr result, database') \<Rightarrow>
          (if not' result then (Inl \<lparr>status_code = 404, detail = user_not_found\<rparr>, database')
           else (Inr \<lparr>username = username user, email = email user, UserReturn.id' = the result\<rparr>,
                 database')))"

definition delete_user :: "Database \<Rightarrow> int \<Rightarrow> (HTTPException + pydict) \<times> Database" where
  "delete_user database user_id =
     (case execute_delete_users database user_id of
        (Inl e, database') \<Rightarrow>
          (Inl \<lparr>status_code = 500, detail = delete_user_error @ e\<rparr>, database')
      | (Inr deleted_id, database') \<Rightarrow>
          (if not' deleted_id
           then (Inl \<lparr>status_code = 404, detail = user_not_found\<rparr>, database')
           else (Inr [(''message'', user_deleted)], database')))"

definition create_todo :: "Database \<Rightarrow> Todo \<Rightarrow> (HTTPException + TodoReturn) \<times> Database" where
  "create_todo database todo =
     (case execute_insert_todos database todo of
        (Inl e, database') \<Rightarrow>
          (Inl \<lparr>status_code = 500, detail = create_todo_error @ e\<rparr>, database')
      | (Inr todo_id, database') \<Rightarrow>
          (Inr \<lparr>title = title todo, description = description todo,
                is_complited = is_complited todo, id' = todo_id\<rparr>, database'))"

definition get_todo :: "Database \<Rightarrow> int \<Rightarrow> HTTPException + TodoReturn" where
  "get_todo database todo_id =
     (case fetch_one_todos database todo_id of
        Inl e \<Rightarrow> Inl \<lparr>status_code = 500, detail = get_todo_error @ e\<rparr>
      | Inr None \<Rightarrow> Inl \<lparr>status_code = 404, detail = todo_not_found\<rparr>
      | Inr (Some (i, t, d, c)) \<Rightarrow>
          Inr \<lparr>title = t, description = d, is_complited = c, id' = i\<rparr>)"

definition update_todo ::
  "Database \<Rightarrow> int \<Rightarrow> Todo \<Rightarrow> (HTTPException + TodoReturn) \<times> Database" where
  "update_todo database todo_id todo =
     (case execute_update_todos database todo_id todo of
        (Inl e, database') \<Rightarrow>
          (Inl \<lparr>status_code = 500, detail = update_todo_error @ e\<rparr>, database')
      | (Inr result, database') \<Rightarrow>
          (if not' result then (Inl \<lparr>status_code = 404, detail = todo_not_found\<rparr>, database')
           else (Inr \<lparr>title = title todo, description = description todo,
                      is_complited = is_complited todo, id' = the result\<rparr>, database')))"

text \<open>The text of the internal error of \<open>delete_todo\<close> is the one of \<open>delete_user\<close>.\<close>

definition delete_todo :: "Database \<Rightarrow> int \<Rightarrow> (HTTPException + pydict) \<times> Database" where
  "delete_todo database todo_id =
     (case execute_delete_todos database todo_id of
        (Inl e, database') \<Rightarrow>
          (Inl \<lparr>status_code = 500, detail = delete_user_error @ e\<rparr>, database')
      | (Inr deleted_todo, database') \<Rightarrow>
          (if not' deleted_todo
           then (Inl \<lparr>status_code = 404, detail = todo_not_found_delete\<rparr>, database')
           else (Inr [(''message'', todo_deleted)], database')))"

section \<open>Regular expressions\<close>

text \<open>
  The two patterns of \<open>app/models.py\<close> are run by regular-expression engines that are
  not code of the repository. The engine is modelled as a backtracking matcher over the
  parsed pattern; the constructors carry the names of the parser's opcodes.
\<close>

datatype regex =
    EMPTY
  | LITERAL nat
  | RANGE nat nat
  | CATEGORY_DIGIT
  | AT_BEGINNING
  | AT_END
  | SEQ regex regex
  | BRANCH regex regex
  | MAX_REPEAT nat nat regex

text \<open>
  The simple lower-case mapping of Unicode, on Basic Latin and on the Cyrillic capital
  letters U+0400 to U+042F. Unicode gives no other code point a lower case among the
  letters that the patterns of this program name.
\<close>

definition unicode_tolower :: "nat \<Rightarrow> nat" where
  "unicode_tolower c =
     (if 65 \<le> c \<and> c \<le> 90 then c + 32
      else if 1040 \<le> c \<and> c \<le> 1071 then c + 32
      else if 1024 \<le> c \<and> c \<le> 1039 then c + 80
      else c)"

text \<open>
  The Cyrillic entries of the table \<open>_EXTRA_CASES\<close> of Python's \<open>re\<close>: lower-case
  letters that have the same upper case as the given one.
\<close>

definition extra_cases :: "nat \<Rightarrow> nat list" where
  "extra_cases c =
     (if c = 1074 then [7296]
      else if c = 1076 then [7297]
      else if c = 1086 then [7298]
      else if c = 1089 then [7299]
      else if c = 1090 then [7300, 7301]
      else if c = 1098 then [7302]
      else if c = 1123 then [7303]
      else if c = 7296 then [1074]
      else if c = 7297 then [1076]
      else if c = 7298 then [1086]
      else if c = 7299 then [1089]
      else if c = 7300 then [1090, 7301]
      else if c = 7301 then [1090, 7300]
      else if c = 7302 then [1098]
      else if c = 7303 then [1123]
      else if c = 7304 then [42571]
      else if c = 42571 then [7304]
      else [])"

text \<open>
  Whether the character \<open>x\<close> of the text matches the literal \<open>c\<close> of the pattern. Under
  \<open>IGNORECASE\<close> the engine lowers \<open>x\<close> and compares it with the lowered literal and its
  extra cases (every literal of this program's patterns is a cased letter).
\<close>

definition literal_matches :: "bool \<Rightarrow> nat \<Rightarrow> nat \<Rightarrow> bool" where
  "literal_matches ignorecase c x =
     (if ignorecase
      then (let lo = unicode_tolower c in unicode_tolower x \<in> set (lo # extra_cases lo))
      else x = c)"

text \<open>
  A range \<open>[lo-hi]\<close>: under \<open>IGNORECASE\<close> the set holds the lowered characters of the
  range and their extra cases, and the lowered \<open>x\<close> is looked up in it.
\<close>

definition range_matches :: "bool \<Rightarrow> nat \<Rightarrow> nat \<Rightarrow> nat \<Rightarrow> bool" where
  "range_matches ignorecase lo hi x =
     (if ignorecase then list_ex (\<lambda>c. literal_matches True c x) [lo ..< Suc hi]
      else lo \<le> x \<and> x \<le> hi)"

text \<open>
  \<open>\d\<close> is a Unicode decimal digit (general category Nd); the ranges are those of
  Unicode 14.0.
\<close>

definition decimal_digit_ranges :: "(nat \<times> nat) list" where
  "decimal_digit_ranges =
     [(48, 57), (1632, 1641), (1776, 1785), (1984, 1993), (2406, 2415), (2534, 2543),
      (2662, 2671), (2790, 2799), (2918, 2927), (3046, 3055), (3174, 3183), (3302, 3311),
      (3430, 3439), (3558, 3567), (3664, 3673), (3792, 3801), (3872, 3881), (4160, 4169),
      (4240, 4249), (6112, 6121), (6160, 6169), (6470, 6479), (6608, 6617), (6784, 6793),
      (6800, 6809), (6992, 7001), (7088, 7097), (7232, 7241), (7248, 7257), (42528, 42537),
      (43216, 43225), (43264, 43273), (43472, 43481), (43504, 43513), (43600, 43609),
      (44016, 44025), (65296, 65305), (66720, 66729), (68912, 68921), (69734, 69743),
      (69872, 69881), (69942, 69951), (70096, 70105), (70384, 70393), (70736, 70745),
      (70864, 70873), (71248, 71257), (71360, 71369), (71472, 71481), (71904, 71913),
      (72016, 72025), (72784, 72793), (73040, 73049), (73120, 73129), (92768, 92777),
      (92864, 92873), (93008, 93017), (120782, 120831), (123200, 123209), (123632, 123641),
      (125264, 125273), (130032, 130041)]"

definition unicode_isdecimal :: "nat \<Rightarrow> bool" where
  "unicode_isdecimal x = list_ex (\<lambda>(lo, hi). lo \<le> x \<and> x \<le> hi) decimal_digit_ranges"

text \<open>The measure under which the matcher terminates.\<close>

fun rsize :: "regex \<Rightarrow> nat" where
  "rsize (SEQ r1 r2) = Suc (rsize r1 + rsize r2)"
| "rsize (BRANCH r1 r2) = Suc (rsize r1 + rsize r2)"
| "rsize (MAX_REPEAT lo hi r) = Suc hi * Suc (rsize r)"
| "rsize r = 0"

text \<open>
  A position is the number of characters before it and the text after it. \<open>matches\<close>
  lists, in the order the engine tries them, the positions at which a match of \<open>r\<close> that
  starts at the given position can end. \<open>MAX_REPEAT\<close> is greedy: it tries one more
  repetition before it tries to stop. \<open>AT_END\<close> is the end of the text.
\<close>

function matches :: "bool \<Rightarrow> regex \<Rightarrow> nat \<times> pystr \<Rightarrow> (nat \<times> pystr) list" where
  "matches ic EMPTY p = [p]"
| "matches ic (LITERAL c) (i, s) =
     (case s of [] \<Rightarrow> [] | x # xs \<Rightarrow> if literal_matches ic c x then [(Suc i, xs)] else [])"
| "matches ic (RANGE lo hi) (i, s) =
     (case s of [] \<Rightarrow> [] | x # xs \<Rightarrow> if range_matches ic lo hi x then [(Suc i, xs)] else [])"
| "matches ic CATEGORY_DIGIT (i, s) =
     (case s of [] \<Rightarrow> [] | x # xs \<Rightarrow> if unicode_isdecimal x then [(Suc i, xs)] else [])"
| "matches ic AT_BEGINNING (i, s) = (if i = 0 then [(i, s)] else [])"
| "matches ic AT_END (i, s) = (if s = [] then [(i, s)] else [])"
| "matches ic (SEQ r1 r2) p = concat (map (matches ic r2) (matches ic r1 p))"
| "matches ic (BRANCH r1 r2) p = matches ic r1 p @ matches ic r2 p"
| "matches ic (MAX_REPEAT lo 0 r) p = (if lo = 0 then [p] else [])"
| "matches ic (MAX_REPEAT lo (Suc hi) r) p =
     concat (map (matches ic (MAX_REPEAT (lo - 1) hi r)) (matches ic r p))
     @ (if lo = 0 then [p] else [])"
  by pat_completeness auto
termination
  by (relation "measure (\<lambda>(ic, r, p). rsize r)") auto

text \<open>
  \<open>re.findall\<close>: the matched pieces of the text, left to right. At each position the
  first match the engine finds is taken and the scan goes on behind it (\<open>skip\<close> counts
  the characters of the text still covered by the piece just found); where nothing
  matches the scan moves on by one character.
\<close>

fun scan :: "bool \<Rightarrow> regex \<Rightarrow> nat \<Rightarrow> nat \<Rightarrow> pystr \<Rightarrow> pystr list" where
  "scan ic r i skip [] =
     (if skip = 0 then (case matches ic r (i, []) of [] \<Rightarrow> [] | q # qs \<Rightarrow> [[]]) else [])"
| "scan ic r i skip (x # xs) =
     (if 0 < skip then scan ic r (Suc i) (skip - 1) xs
      else (case matches ic r (i, x # xs) of
              [] \<Rightarrow> scan ic r (Suc i) 0 xs
            | (j, rest) # qs \<Rightarrow>
                take (j - i) (x # xs) # scan ic r (Suc i) (j - i - 1) xs))"

definition findall :: "bool \<Rightarrow> regex \<Rightarrow> pystr \<Rightarrow> pystr list" where
  "findall ic r s = scan ic r 0 0 s"

text \<open>
  The check of a \<open>pattern\<close> constraint: whether the pattern, case-sensitive, matches
  somewhere in the text.
\<close>

definition is_match :: "regex \<Rightarrow> pystr \<Rightarrow> bool" where
  "is_match r s = list_ex (\<lambda>i. matches False r (i, drop i s) \<noteq> []) [0 ..< Suc (length s)]"

definition literals :: "pystr \<Rightarrow> regex" where
  "literals cs = foldr (\<lambda>c r. SEQ (LITERAL c) r) cs EMPTY"

section \<open>The validation layer: \<open>app/models.py\<close>\<close>

text \<open>A request body, as the JSON parser hands it over.\<close>

datatype json =
    JNull
  | JBool bool
  | JNumber int
  | JString pystr
  | JArray "json list"
  | JObject "(string \<times> json) list"

text \<open>Of a key that is written twice the parser keeps the last value.\<close>

definition field :: "(string \<times> json) list \<Rightarrow> string \<Rightarrow> json option" where
  "field kvs k = map_of (rev kvs) k"

text \<open>
  What the validation library reports for a field that fails: the kind of the error;
  \<open>value_error\<close> carries the text of the \<open>ValueError\<close> that a validator of the program
  raised. An error is reported with the path of the field it belongs to.
\<close>

datatype error_type =
    missing
  | string_type
  | string_too_short
  | string_too_long
  | string_pattern_mismatch
  | value_error pystr
  | model_type

text \<open>\<open>model_type\<close> is the error for an input that is not an object.\<close>

type_synonym error_details = "string list \<times> error_type"

definition errors_at :: "string \<Rightarrow> error_type + 'a \<Rightarrow> error_details list" where
  "errors_at k r = (case r of Inl t \<Rightarrow> [([k], t)] | Inr v \<Rightarrow> [])"

text \<open>A required field of type \<open>str\<close>: text is taken as it is, nothing else is text.\<close>

definition str_field :: "json option \<Rightarrow> error_type + pystr" where
  "str_field raw =
     (case raw of
        None \<Rightarrow> Inl missing
      | Some (JString s) \<Rightarrow> Inr s
      | Some other \<Rightarrow> Inl string_type)"

text \<open>A required field \<open>str = Field(min_length=lo, max_length=hi)\<close>.\<close>

definition str_field_length :: "nat \<Rightarrow> nat \<Rightarrow> json option \<Rightarrow> error_type + pystr" where
  "str_field_length lo hi raw =
     (case str_field raw of
        Inl t \<Rightarrow> Inl t
      | Inr s \<Rightarrow>
          if length s < lo then Inl string_too_short
          else if hi < length s then Inl string_too_long
          else Inr s)"

text \<open>\<open>class UserBase(BaseModel): username: str; email: str\<close>, and \<open>UserCreate\<close>.\<close>

definition UserCreate_validate :: "json \<Rightarrow> error_details list + UserCreate" where
  "UserCreate_validate body =
     (case body of
        JObject kvs \<Rightarrow>
          (let u = str_field (field kvs ''username''); e = str_field (field kvs ''email'')
           in case (u, e) of
                (Inr u', Inr e') \<Rightarrow> Inr \<lparr>username = u', email = e'\<rparr>
              | other \<Rightarrow> Inl (errors_at ''username'' u @ errors_at ''email'' e))
      | other \<Rightarrow> Inl [([], model_type)])"

text \<open>
  Modelled from the spec: the HTTP surface (the framework's routing is not code of the
  repository). A request to \<open>POST /users/\<close> or \<open>PUT /users/{user_id}\<close> has its body
  validated against \<open>UserCreate\<close>; on a validation failure the answer is the 422 with
  the field errors and the handler is not called.
\<close>

definition post_users ::
  "Database \<Rightarrow> json \<Rightarrow> (error_details list + HTTPException + UserReturn) \<times> Database" where
  "post_users database body =
     (case UserCreate_validate body of
        Inl errs \<Rightarrow> (Inl errs, database)
      | Inr user \<Rightarrow> (case create_user database user of (r, database') \<Rightarrow> (Inr r, database')))"

definition put_users ::
  "Database \<Rightarrow> int \<Rightarrow> json \<Rightarrow> (error_details list + HTTPException + UserReturn) \<times> Database" where
  "put_users database user_id body =
     (case UserCreate_validate body of
        Inl errs \<Rightarrow> (Inl errs, database)
      | Inr user \<Rightarrow>
          (case update_user database user_id user of (r, database') \<Rightarrow> (Inr r, database')))"

subsection \<open>\<open>Contact\<close>\<close>

record Contact =
  email :: pystr
  phone :: "pystr option"

text \<open>\<open>r'^\d{7,15}$'\<close>\<close>

definition phone_pattern :: regex where
  "phone_pattern = SEQ AT_BEGINNING (SEQ (MAX_REPEAT 7 15 CATEGORY_DIGIT) AT_END)"

text \<open>
  \<open>phone: str | None = Field(default=None, pattern=r'^\d{7,15}$')\<close>: a field that is left
  out takes the default, which is not validated; \<open>null\<close> is \<open>None\<close>; text is checked
  against the pattern.
\<close>

definition Contact_phone :: "json option \<Rightarrow> error_type + pystr option" where
  "Contact_phone raw =
     (case raw of
        None \<Rightarrow> Inr None
      | Some JNull \<Rightarrow> Inr None
      | Some (JString s) \<Rightarrow>
          if is_match phone_pattern s then Inr (Some s) else Inl string_pattern_mismatch
      | Some other \<Rightarrow> Inl string_type)"

text \<open>
  \<open>email: EmailStr\<close>. The check of e-mail syntax is a library of its own and is a
  parameter here: \<open>EmailStr s\<close> is the normalised address, or \<open>None\<close> when \<open>s\<close> is not
  one.
\<close>

definition Contact_email :: "(pystr \<Rightarrow> pystr option) \<Rightarrow> json option \<Rightarrow> error_type + pystr" where
  "Contact_email EmailStr raw =
     (case str_field raw of
        Inl t \<Rightarrow> Inl t
      | Inr s \<Rightarrow> (case EmailStr s of None \<Rightarrow> Inl (value_error []) | Some a \<Rightarrow> Inr a))"

definition Contact_validate ::
  "(pystr \<Rightarrow> pystr option) \<Rightarrow> json \<Rightarrow> error_details list + Contact" where
  "Contact_validate EmailStr body =
     (case body of
        JObject kvs \<Rightarrow>
          (let e = Contact_email EmailStr (field kvs ''email'');
               p = Contact_phone (field kvs ''phone'')
           in case (e, p) of
                (Inr e', Inr p') \<Rightarrow> Inr \<lparr>email = e', phone = p'\<rparr>
              | other \<Rightarrow> Inl (errors_at ''email'' e @ errors_at ''phone'' p))
      | other \<Rightarrow> Inl [([], model_type)])"

subsection \<open>\<open>Feedback\<close>\<close>

record Feedback =
  name :: pystr
  message :: pystr
  contact :: Contact

text \<open>The three stems of the pattern of \<open>validate_message\<close>.\<close>

definition stems :: "pystr list" where
  "stems = [[1088, 1077, 1076, 1080, 1089, 1082], [1073, 1103, 1082],
            [1082, 1086, 1079, 1103, 1074, 1082]]"

text \<open>
  The pattern of \<open>validate_message\<close>: three alternatives, each a stem followed by the
  range from U+0430 to U+044F (the small letters of the Russian alphabet; U+0451 is not
  among them). The flag \<open>(?i)\<close> in front of the pattern is the argument \<open>True\<close> of
  \<open>findall\<close> below.
\<close>

definition message_pattern :: regex where
  "message_pattern =
     BRANCH (SEQ (literals (stems ! 0)) (RANGE 1072 1103))
       (BRANCH (SEQ (literals (stems ! 1)) (RANGE 1072 1103))
               (SEQ (literals (stems ! 2)) (RANGE 1072 1103)))"

definition bad_words :: pystr where
  "bad_words = [1048, 1089, 1087, 1086, 1083, 1100, 1079, 1086, 1074, 1072, 1085, 1080, 1077,
     32, 1085, 1077, 1076, 1086, 1087, 1091, 1089, 1090, 1080, 1084, 1099, 1093, 32, 1089,
     1083, 1086, 1074]"

text \<open>\<open>Inl\<close> is the text of the \<open>ValueError\<close> raised.\<close>

definition validate_message :: "pystr \<Rightarrow> pystr + pystr" where
  "validate_message data =
     (if findall True message_pattern data \<noteq> [] then Inl bad_words else Inr data)"

text \<open>
  \<open>message: str = Field(min_length=10, max_length=500)\<close> with the validator
  \<open>validate_message\<close> in mode \<open>after\<close>: it runs on a text that has passed the bounds.
\<close>

definition Feedback_message :: "json option \<Rightarrow> error_type + pystr" where
  "Feedback_message raw =
     (case str_field_length 10 500 raw of
        Inl t \<Rightarrow> Inl t
      | Inr s \<Rightarrow> (case validate_message s of Inl e \<Rightarrow> Inl (value_error e) | Inr d \<Rightarrow> Inr d))"

definition Feedback_validate ::
  "(pystr \<Rightarrow> pystr option) \<Rightarrow> json \<Rightarrow> error_details list + Feedback" where
  "Feedback_validate EmailStr body =
     (case body of
        JObject kvs \<Rightarrow>
          (let n = str_field_length 2 50 (field kvs ''name'');
               m = Feedback_message (field kvs ''message'');
               c = (case field kvs ''contact'' of
                      None \<Rightarrow> Inl [([''contact''], missing)]
                    | Some j \<Rightarrow>
                        (case Contact_validate EmailStr j of
                           Inl errs \<Rightarrow> Inl (map (\<lambda>(loc, t). (''contact'' # loc, t)) errs)
                         | Inr v \<Rightarrow> Inr v))
           in case (n, m, c) of
                (Inr n', Inr m', Inr c') \<Rightarrow> Inr \<lparr>name = n', message = m', contact = c'\<rparr>
              | other \<Rightarrow>
                  Inl (errors_at ''name'' n @ errors_at ''message'' m
                       @ (case c of Inl errs \<Rightarrow> errs | Inr v \<Rightarrow> [])))
      | other \<Rightarrow> Inl [([], model_type)])"

section \<open>What the specification speaks of\<close>

text \<open>
  A stem stands at the head of a text when each of its letters matches the letter of the
  text at its place, case being ignored as the engine ignores it.
\<close>

fun starts_with :: "pystr \<Rightarrow> pystr \<Rightarrow> bool" where
  "starts_with [] s = True"
| "starts_with (c # cs) [] = False"
| "starts_with (c # cs) (x # xs) = (literal_matches True c x \<and> starts_with cs xs)"

text \<open>
  The letters from U+0430 to U+044F in either case, and the seven variant forms U+1C80
  to U+1C86 that Unicode gives the upper case of one of them.
\<close>

definition letter_a_ya :: "nat \<Rightarrow> bool" where
  "letter_a_ya x =
     ((1072 \<le> x \<and> x \<le> 1103) \<or> (1040 \<le> x \<and> x \<le> 1071) \<or> (7296 \<le> x \<and> x \<le> 7302))"

definition stem_here :: "pystr \<Rightarrow> bool" where
  "stem_here s = list_ex (\<lambda>st. starts_with st s) stems"

definition stem_and_letter_here :: "pystr \<Rightarrow> bool" where
  "stem_and_letter_here s =
     list_ex (\<lambda>st. starts_with st s \<and>
                   (case drop (length st) s of [] \<Rightarrow> False | x # xs \<Rightarrow> letter_a_ya x)) stems"

text \<open>The message contains a blocklisted stem.\<close>

fun contains_stem :: "pystr \<Rightarrow> bool" where
  "contains_stem [] = False"
| "contains_stem (x # xs) = (stem_here (x # xs) \<or> contains_stem xs)"

text \<open>The message contains a blocklisted stem with a letter of the range right after it.\<close>

fun contains_stem_and_letter :: "pystr \<Rightarrow> bool" where
  "contains_stem_and_letter [] = False"
| "contains_stem_and_letter (x # xs) =
     (stem_and_letter_here (x # xs) \<or> contains_stem_and_letter xs)"

text \<open>The text consists of decimal digits, at least \<open>lo\<close> and at most \<open>hi\<close> of them.\<close>

definition digits_between :: "nat \<Rightarrow> nat \<Rightarrow> pystr \<Rightarrow> bool" where
  "digits_between lo hi s = (lo \<le> length s \<and> length s \<le> hi \<and> list_all unicode_isdecimal s)"

text \<open>The field is there and is text.\<close>

definition is_text :: "json option \<Rightarrow> bool" where
  "is_text raw = (case raw of Some (JString s) \<Rightarrow> True | other \<Rightarrow> False)"

section \<open>Example data\<close>

definition empty_database :: Database where
  "empty_database = \<lparr>failure = None, id_bits = 31, users = Map.empty, users_id_seq = 1,
     todos = Map.empty, todos_id_seq = 1\<rparr>"

definition alice :: UserCreate where
  "alice = \<lparr>username = ascii ''alice'', UserBase.email = ascii ''a@example.com''\<rparr>"

definition bob :: UserCreate where
  "bob = \<lparr>username = ascii ''bob'', UserBase.email = ascii ''b@example.com''\<rparr>"

definition shopping :: Todo where
  "shopping = \<lparr>title = ascii ''shopping'', description = ascii ''milk'', is_complited = False\<rparr>"

definition cleaning :: Todo where
  "cleaning = \<lparr>title = ascii ''cleaning'', description = ascii ''hall'', is_complited = True\<rparr>"

section \<open>The handlers: properties\<close>

text \<open>
  C1. For every user input, when \<open>create_user\<close> succeeds, the record it returns has the
  fields of the input together with the id the store assigned, and \<open>get_user\<close> on that id,
  run on the store that \<open>create_user\<close> left, returns the same record.
\<close>

theorem create_then_get_user:
  assumes "create_user db u = (Inr r, db')"
  shows "r = \<lparr>username = username u, UserBase.email = UserBase.email u,
               UserReturn.id' = UserReturn.id' r\<rparr>
         \<and> get_user db' (UserReturn.id' r) = Inr r"
  using assms
  by (auto simp: create_user_def execute_insert_users_def get_user_def fetch_one_users_def Let_def
           storage_error_def in_range_def split: option.splits if_splits)

theorem create_then_get_user_witness:
  "create_user empty_database alice =
     (Inr \<lparr>username = ascii ''alice'', UserBase.email = ascii ''a@example.com'',
           UserReturn.id' = 1\<rparr>,
      empty_database\<lparr>users := [1 \<mapsto> alice], users_id_seq := 2\<rparr>)
   \<and> get_user (empty_database\<lparr>users := [1 \<mapsto> alice], users_id_seq := 2\<rparr>) 1 =
       Inr \<lparr>username = ascii ''alice'', UserBase.email = ascii ''a@example.com'',
            UserReturn.id' = 1\<rparr>"
proof -
  have h: "create_user empty_database alice =
     (Inr \<lparr>username = ascii ''alice'', UserBase.email = ascii ''a@example.com'',
           UserReturn.id' = 1\<rparr>,
      empty_database\<lparr>users := [1 \<mapsto> alice], users_id_seq := 2\<rparr>)"
    by (simp add: create_user_def execute_insert_users_def storage_error_def in_range_def
          empty_database_def alice_def Let_def)
  from create_then_get_user [OF h] h show ?thesis by simp
qed

text \<open>
  C2 as stated fails: on a store that works, whose \<open>id\<close> columns are of type \<open>integer\<close>,
  the id 2147483648 has no row, and reading, updating and deleting a user or a todo with it
  each fail with the 500, since the gateway raises for an id that the column cannot hold.
\<close>

theorem missing_id_out_of_range_is_internal_error:
  "users empty_database 2147483648 = None \<and> todos empty_database 2147483648 = None
   \<and> failure empty_database = None
   \<and> get_user empty_database 2147483648 =
       Inl \<lparr>status_code = 500, detail = get_user_error @ out_of_range\<rparr>
   \<and> update_user empty_database 2147483648 bob =
       (Inl \<lparr>status_code = 500, detail = update_user_error @ out_of_range\<rparr>, empty_database)
   \<and> delete_user empty_database 2147483648 =
       (Inl \<lparr>status_code = 500, detail = delete_user_error @ out_of_range\<rparr>, empty_database)
   \<and> get_todo empty_database 2147483648 =
       Inl \<lparr>status_code = 500, detail = get_todo_error @ out_of_range\<rparr>
   \<and> update_todo empty_database 2147483648 cleaning =
       (Inl \<lparr>status_code = 500, detail = update_todo_error @ out_of_range\<rparr>, empty_database)
   \<and> delete_todo empty_database 2147483648 =
       (Inl \<lparr>status_code = 500, detail = delete_user_error @ out_of_range\<rparr>, empty_database)"
  by (simp add: get_user_def update_user_def delete_user_def fetch_one_users_def
        execute_update_users_def execute_delete_users_def
        get_todo_def update_todo_def delete_todo_def fetch_one_todos_def
        execute_update_todos_def execute_delete_todos_def
        storage_error_def in_range_def empty_database_def)

text \<open>
  C2, as the code has it. For every id with no matching row, reading, updating and
  deleting a user, and reading, updating and deleting a todo, each fail with the 404 and
  its not-found text, and leave the store as it was, whenever the store executes the
  statement: it has no failure of its own pending and the id is within the range of the
  \<open>id\<close> column. When the store raises instead, each of the six fails with the 500, whose
  text is the handler's own followed by the text of the error, and the store is left as
  it was. The store raises exactly when a failure is pending or the id is out of range.
\<close>

theorem missing_id_is_not_found:
  "(failure db = None \<and> in_range db i \<and> users db i = None \<longrightarrow>
            get_user db i = Inl \<lparr>status_code = 404, detail = user_not_found\<rparr>
          \<and> update_user db i u = (Inl \<lparr>status_code = 404, detail = user_not_found\<rparr>, db)
          \<and> delete_user db i = (Inl \<lparr>status_code = 404, detail = user_not_found\<rparr>, db))
   \<and> (failure db = None \<and> in_range db i \<and> todos db i = None \<longrightarrow>
            get_todo db i = Inl \<lparr>status_code = 404, detail = todo_not_found\<rparr>
          \<and> update_todo db i t = (Inl \<lparr>status_code = 404, detail = todo_not_found\<rparr>, db)
          \<and> delete_todo db i =
              (Inl \<lparr>status_code = 404, detail = todo_not_found_delete\<rparr>, db))
   \<and> (storage_error db i = Some e \<longrightarrow>
            get_user db i = Inl \<lparr>status_code = 500, detail = get_user_error @ e\<rparr>
          \<and> update_user db i u = (Inl \<lparr>status_code = 500, detail = update_user_error @ e\<rparr>, db)
          \<and> delete_user db i = (Inl \<lparr>status_code = 500, detail = delete_user_error @ e\<rparr>, db)
          \<and> get_todo db i = Inl \<lparr>status_code = 500, detail = get_todo_error @ e\<rparr>
          \<and> update_todo db i t = (Inl \<lparr>status_code = 500, detail = update_todo_error @ e\<rparr>, db)
          \<and> delete_todo db i = (Inl \<lparr>status_code = 500, detail = delete_user_error @ e\<rparr>, db))
   \<and> (storage_error db i = Some e \<longleftrightarrow>
          failure db = Some e \<or> (failure db = None \<and> \<not> in_range db i \<and> e = out_of_range))"
proof -
  have ok: "failure db = None \<and> in_range db i \<Longrightarrow> storage_error db i = None"
    by (simp add: storage_error_def)
  have users_part: "failure db = None \<and> in_range db i \<and> users db i = None \<longrightarrow>
            get_user db i = Inl \<lparr>status_code = 404, detail = user_not_found\<rparr>
          \<and> update_user db i u = (Inl \<lparr>status_code = 404, detail = user_not_found\<rparr>, db)
          \<and> delete_user db i = (Inl \<lparr>status_code = 404, detail = user_not_found\<rparr>, db)"
    using ok
    by (simp add: get_user_def update_user_def delete_user_def fetch_one_users_def
          execute_update_users_def execute_delete_users_def)
  have todos_part: "failure db = None \<and> in_range db i \<and> todos db i = None \<longrightarrow>
            get_todo db i = Inl \<lparr>status_code = 404, detail = todo_not_found\<rparr>
          \<and> update_todo db i t = (Inl \<lparr>status_code = 404, detail = todo_not_found\<rparr>, db)
          \<and> delete_todo db i =
              (Inl \<lparr>status_code = 404, detail = todo_not_found_delete\<rparr>, db)"
    using ok
    by (simp add: get_todo_def update_todo_def delete_todo_def fetch_one_todos_def
          execute_update_todos_def execute_delete_todos_def)
  have raised: "storage_error db i = Some e \<longrightarrow>
            get_user db i = Inl \<lparr>status_code = 500, detail = get_user_error @ e\<rparr>
          \<and> update_user db i u = (Inl \<lparr>status_code = 500, detail = update_user_error @ e\<rparr>, db)
          \<and> delete_user db i = (Inl \<lparr>status_code = 500, detail = delete_user_error @ e\<rparr>, db)
          \<and> get_todo db i = Inl \<lparr>status_code = 500, detail = get_todo_error @ e\<rparr>
          \<and> update_todo db i t = (Inl \<lparr>status_code = 500, detail = update_todo_error @ e\<rparr>, db)
          \<and> delete_todo db i = (Inl \<lparr>status_code = 500, detail = delete_user_error @ e\<rparr>, db)"
    by (simp add: get_user_def update_user_def delete_user_def fetch_one_users_def
          execute_update_users_def execute_delete_users_def
          get_todo_def update_todo_def delete_todo_def fetch_one_todos_def
          execute_update_todos_def execute_delete_todos_def)
  have raises_iff: "storage_error db i = Some e \<longleftrightarrow>
          failure db = Some e \<or> (failure db = None \<and> \<not> in_range db i \<and> e = out_of_range)"
    by (auto simp: storage_error_def split: option.splits)
  from users_part todos_part raised raises_iff show ?thesis by blast
qed

theorem missing_id_is_not_found_witness:
  "get_user empty_database 7 = Inl \<lparr>status_code = 404, detail = user_not_found\<rparr>
   \<and> update_user empty_database 7 bob =
       (Inl \<lparr>status_code = 404, detail = user_not_found\<rparr>, empty_database)
   \<and> delete_user empty_database 7 =
       (Inl \<lparr>status_code = 404, detail = user_not_found\<rparr>, empty_database)
   \<and> get_todo empty_database 7 = Inl \<lparr>status_code = 404, detail = todo_not_found\<rparr>
   \<and> update_todo empty_database 7 cleaning =
       (Inl \<lparr>status_code = 404, detail = todo_not_found\<rparr>, empty_database)
   \<and> delete_todo empty_database 7 =
       (Inl \<lparr>status_code = 404, detail = todo_not_found_delete\<rparr>, empty_database)
   \<and> get_user (empty_database\<lparr>failure := Some (ascii ''connection lost'')\<rparr>) 7 =
       Inl \<lparr>status_code = 500, detail = get_user_error @ ascii ''connection lost''\<rparr>
   \<and> delete_todo (empty_database\<lparr>failure := Some (ascii ''connection lost'')\<rparr>) 7 =
       (Inl \<lparr>status_code = 500, detail = delete_user_error @ ascii ''connection lost''\<rparr>,
        empty_database\<lparr>failure := Some (ascii ''connection lost'')\<rparr>)"
proof -
  let ?down = "empty_database\<lparr>failure := Some (ascii ''connection lost'')\<rparr>"
  have f: "failure empty_database = None \<and> in_range empty_database 7"
    by (simp add: empty_database_def in_range_def)
  have u: "users empty_database 7 = None" and t: "todos empty_database 7 = None"
    by (simp_all add: empty_database_def)
  have d: "storage_error ?down 7 = Some (ascii ''connection lost'')"
    by (simp add: storage_error_def)
  from missing_id_is_not_found [where db = empty_database and i = 7 and u = bob and t = cleaning]
    missing_id_is_not_found
      [where db = ?down and i = 7 and u = bob and t = cleaning and e = "ascii ''connection lost''"]
    f u t d
  show ?thesis by simp
qed

text \<open>
  C3. For every id, when \<open>delete_user\<close> succeeds, \<open>get_user\<close> on the same id, run on the
  store that the deletion left, fails with the 404.
\<close>

theorem delete_then_get_user:
  assumes "delete_user db i = (Inr m, db')"
  shows "get_user db' i = Inl \<lparr>status_code = 404, detail = user_not_found\<rparr>"
  using assms
  by (auto simp: delete_user_def execute_delete_users_def get_user_def fetch_one_users_def
           storage_error_def in_range_def split: option.splits if_splits)

theorem delete_then_get_user_witness:
  "delete_user (empty_database\<lparr>users := [1 \<mapsto> alice]\<rparr>) 1 =
     ((Inr [(''message'', user_deleted)]), empty_database\<lparr>users := Map.empty\<rparr>)
   \<and> get_user (empty_database\<lparr>users := Map.empty\<rparr>) 1 =
       Inl \<lparr>status_code = 404, detail = user_not_found\<rparr>"
proof -
  have h: "delete_user (empty_database\<lparr>users := [1 \<mapsto> alice]\<rparr>) 1 =
     ((Inr [(''message'', user_deleted)]), empty_database\<lparr>users := Map.empty\<rparr>)"
    by (simp add: delete_user_def execute_delete_users_def storage_error_def in_range_def
          empty_database_def)
  from delete_then_get_user [OF h] h show ?thesis by simp
qed

text \<open>
  C4. Every successful update, of a user or of a todo, answers with the record whose
  fields are the fields submitted and whose id is the id of the path. (The handlers take
  the id from what the statement returns; the statement selects the row by the id of the
  path and returns the id of that row, and no second statement reads the row back.)
\<close>

theorem update_returns_path_id:
  "(update_user db i u = (Inr r, db') \<longrightarrow>
      r = \<lparr>username = username u, UserBase.email = UserBase.email u, UserReturn.id' = i\<rparr>)
   \<and> (update_todo db i t = (Inr r', db'') \<longrightarrow>
      r' = \<lparr>title = title t, description = description t, is_complited = is_complited t,
             TodoReturn.id' = i\<rparr>)"
  by (auto simp: update_user_def execute_update_users_def update_todo_def execute_update_todos_def
           storage_error_def split: option.splits if_splits)

theorem update_returns_path_id_witness:
  "update_user (empty_database\<lparr>users := [1 \<mapsto> alice], todos := [1 \<mapsto> shopping]\<rparr>) 1 bob =
     (Inr \<lparr>username = ascii ''bob'', UserBase.email = ascii ''b@example.com'',
           UserReturn.id' = 1\<rparr>,
      empty_database\<lparr>users := [1 \<mapsto> bob], todos := [1 \<mapsto> shopping]\<rparr>)
   \<and> update_todo (empty_database\<lparr>users := [1 \<mapsto> alice], todos := [1 \<mapsto> shopping]\<rparr>) 1 cleaning =
     (Inr \<lparr>title = ascii ''cleaning'', description = ascii ''hall'', is_complited = True,
           TodoReturn.id' = 1\<rparr>,
      empty_database\<lparr>users := [1 \<mapsto> alice], todos := [1 \<mapsto> cleaning]\<rparr>)"
proof -
  let ?db = "empty_database\<lparr>users := [1 \<mapsto> alice], todos := [1 \<mapsto> shopping]\<rparr>"
  obtain r where a: "update_user ?db 1 bob =
      (Inr r, empty_database\<lparr>users := [1 \<mapsto> bob], todos := [1 \<mapsto> shopping]\<rparr>)"
    by (simp add: update_user_def execute_update_users_def storage_error_def in_range_def
          empty_database_def)
  obtain r' where b: "update_todo ?db 1 cleaning =
      (Inr r', empty_database\<lparr>users := [1 \<mapsto> alice], todos := [1 \<mapsto> cleaning]\<rparr>)"
    by (simp add: update_todo_def execute_update_todos_def storage_error_def in_range_def
          empty_database_def)
  from update_returns_path_id
    [where db = ?db and i = 1 and u = bob and t = cleaning and r = r and r' = r'
       and db' = "empty_database\<lparr>users := [1 \<mapsto> bob], todos := [1 \<mapsto> shopping]\<rparr>"
       and db'' = "empty_database\<lparr>users := [1 \<mapsto> alice], todos := [1 \<mapsto> cleaning]\<rparr>"] a b
  have "r = \<lparr>username = username bob, UserBase.email = UserBase.email bob, UserReturn.id' = 1\<rparr>"
    and "r' = \<lparr>title = title cleaning, description = description cleaning,
               is_complited = is_complited cleaning, TodoReturn.id' = 1\<rparr>"
    by simp_all
  with a b show ?thesis by (simp add: bob_def cleaning_def)
qed

text \<open>
  C8. \<open>read_root\<close> returns a dictionary with one key: the key is the text \<open>message: \<close>,
  with a colon and a blank at its end, and not \<open>message\<close>; its value is
  \<open>Hello, World!\<close>.
\<close>

theorem read_root_body:
  "read_root = [(''message: '', ascii ''Hello, World!'')] \<and> map_of read_root ''message'' = None"
  by (simp add: read_root_def)

text \<open>
  C10. On a store with no failure pending: when a user row with id 0 exists, \<open>update_user\<close>
  on id 0 overwrites the row and \<open>delete_user\<close> on id 0 removes it, and both answer with
  the 404; the same holds of \<open>update_todo\<close> and \<open>delete_todo\<close> for a todo row with id 0.
\<close>

theorem id_zero_changes_state_but_not_found:
  assumes "failure db = None"
  shows "(users db 0 = Some old \<longrightarrow>
            update_user db 0 u =
              (Inl \<lparr>status_code = 404, detail = user_not_found\<rparr>,
               db\<lparr>users := (users db)(0 \<mapsto> u)\<rparr>)
          \<and> delete_user db 0 =
              (Inl \<lparr>status_code = 404, detail = user_not_found\<rparr>,
               db\<lparr>users := (users db)(0 := None)\<rparr>))
       \<and> (todos db 0 = Some old' \<longrightarrow>
            update_todo db 0 t =
              (Inl \<lparr>status_code = 404, detail = todo_not_found\<rparr>,
               db\<lparr>todos := (todos db)(0 \<mapsto> t)\<rparr>)
          \<and> delete_todo db 0 =
              (Inl \<lparr>status_code = 404, detail = todo_not_found_delete\<rparr>,
               db\<lparr>todos := (todos db)(0 := None)\<rparr>))"
  using assms
  by (simp add: update_user_def delete_user_def execute_update_users_def execute_delete_users_def
        update_todo_def delete_todo_def execute_update_todos_def execute_delete_todos_def
        storage_error_def in_range_def)

theorem id_zero_changes_state_but_not_found_witness:
  "update_user (empty_database\<lparr>users := [0 \<mapsto> alice], todos := [0 \<mapsto> shopping]\<rparr>) 0 bob =
     (Inl \<lparr>status_code = 404, detail = user_not_found\<rparr>,
      empty_database\<lparr>users := [0 \<mapsto> bob], todos := [0 \<mapsto> shopping]\<rparr>)
   \<and> delete_user (empty_database\<lparr>users := [0 \<mapsto> alice], todos := [0 \<mapsto> shopping]\<rparr>) 0 =
     (Inl \<lparr>status_code = 404, detail = user_not_found\<rparr>,
      empty_database\<lparr>users := Map.empty, todos := [0 \<mapsto> shopping]\<rparr>)
   \<and> update_todo (empty_database\<lparr>users := [0 \<mapsto> alice], todos := [0 \<mapsto> shopping]\<rparr>) 0 cleaning =
     (Inl \<lparr>status_code = 404, detail = todo_not_found\<rparr>,
      empty_database\<lparr>users := [0 \<mapsto> alice], todos := [0 \<mapsto> cleaning]\<rparr>)
   \<and> delete_todo (empty_database\<lparr>users := [0 \<mapsto> alice], todos := [0 \<mapsto> shopping]\<rparr>) 0 =
     (Inl \<lparr>status_code = 404, detail = todo_not_found_delete\<rparr>,
      empty_database\<lparr>users := [0 \<mapsto> alice], todos := Map.empty\<rparr>)"
proof -
  let ?db = "empty_database\<lparr>users := [0 \<mapsto> alice], todos := [0 \<mapsto> shopping]\<rparr>"
  have f: "failure ?db = None"
    by (simp add: empty_database_def)
  have u: "users ?db 0 = Some alice" and t: "todos ?db 0 = Some shopping"
    by simp_all
  from id_zero_changes_state_but_not_found
    [where old = alice and u = bob and old' = shopping and t = cleaning, OF f] u t
  show ?thesis by simp
qed

section \<open>The predicates of the specification: properties\<close>

text \<open>
  The predicates above are written so that they can be evaluated. They say what they
  should: a text contains a stem when it can be cut into a piece before, a piece that
  reads as the stem letter by letter when case is ignored, and a piece after; with a
  letter right after the stem when the piece after starts with a letter of the range.
\<close>

lemma starts_with_iff:
  "starts_with st s \<longleftrightarrow> (\<exists>w rest. s = w @ rest \<and> list_all2 (literal_matches True) st w)"
proof (induction st s rule: starts_with.induct)
  case (1 s)
  then show ?case by simp
next
  case (2 c cs)
  then show ?case by simp
next
  case (3 c cs x xs)
  show ?case
  proof
    assume "starts_with (c # cs) (x # xs)"
    with 3 obtain w rest where "xs = w @ rest" "list_all2 (literal_matches True) cs w"
      "literal_matches True c x"
      by auto
    then have "x # xs = (x # w) @ rest \<and> list_all2 (literal_matches True) (c # cs) (x # w)"
      by simp
    then show "\<exists>w rest. x # xs = w @ rest \<and> list_all2 (literal_matches True) (c # cs) w"
      by blast
  next
    assume "\<exists>w rest. x # xs = w @ rest \<and> list_all2 (literal_matches True) (c # cs) w"
    then obtain w rest where w: "x # xs = w @ rest" "list_all2 (literal_matches True) (c # cs) w"
      by blast
    then obtain y w' where "w = y # w'" "literal_matches True c y"
      "list_all2 (literal_matches True) cs w'"
      by (auto simp: list_all2_Cons1)
    with w 3 show "starts_with (c # cs) (x # xs)" by auto
  qed
qed

lemma starts_with_length: "starts_with st s \<Longrightarrow> length st \<le> length s"
  by (induction st s rule: starts_with.induct) auto

lemma stem_here_iff:
  "stem_here s \<longleftrightarrow>
     (\<exists>st w rest. st \<in> set stems \<and> s = w @ rest \<and> list_all2 (literal_matches True) st w)"
  unfolding stem_here_def list_ex_iff starts_with_iff by blast

lemma stem_and_letter_here_iff:
  "stem_and_letter_here s \<longleftrightarrow>
     (\<exists>st w x rest. st \<in> set stems \<and> s = w @ x # rest
        \<and> list_all2 (literal_matches True) st w \<and> letter_a_ya x)"
proof
  assume "stem_and_letter_here s"
  then obtain st where st: "st \<in> set stems" "starts_with st s"
      "case drop (length st) s of [] \<Rightarrow> False | x # xs \<Rightarrow> letter_a_ya x"
    unfolding stem_and_letter_here_def list_ex_iff by blast
  from st(2) obtain w rest where w: "s = w @ rest" "list_all2 (literal_matches True) st w"
    unfolding starts_with_iff by blast
  then have "length w = length st"
    by (simp add: list_all2_lengthD)
  with w have "drop (length st) s = rest" by simp
  with st(3) obtain x rest' where "rest = x # rest'" "letter_a_ya x"
    by (auto split: list.splits)
  with st(1) w show "\<exists>st w x rest. st \<in> set stems \<and> s = w @ x # rest
        \<and> list_all2 (literal_matches True) st w \<and> letter_a_ya x"
    by blast
next
  assume "\<exists>st w x rest. st \<in> set stems \<and> s = w @ x # rest
        \<and> list_all2 (literal_matches True) st w \<and> letter_a_ya x"
  then obtain st w x rest where h: "st \<in> set stems" "s = w @ x # rest"
      "list_all2 (literal_matches True) st w" "letter_a_ya x"
    by blast
  then have "length w = length st"
    by (simp add: list_all2_lengthD)
  with h have "drop (length st) s = x # rest" by simp
  moreover from h have "starts_with st s"
    unfolding starts_with_iff by blast
  ultimately show "stem_and_letter_here s"
    unfolding stem_and_letter_here_def list_ex_iff using h(1,4) by auto
qed

lemma contains_stem_iff:
  "contains_stem s \<longleftrightarrow>
     (\<exists>pre st w rest. st \<in> set stems \<and> s = pre @ w @ rest
        \<and> list_all2 (literal_matches True) st w)"
proof (induction s)
  case Nil
  have "\<And>st. st \<in> set stems \<Longrightarrow> \<not> list_all2 (literal_matches True) st []"
    by (auto simp: stems_def)
  then show ?case by auto
next
  case (Cons x xs)
  show ?case
  proof
    assume "contains_stem (x # xs)"
    then consider "stem_here (x # xs)" | "contains_stem xs" by auto
    then show "\<exists>pre st w rest. st \<in> set stems \<and> x # xs = pre @ w @ rest
        \<and> list_all2 (literal_matches True) st w"
    proof cases
      case 1
      then obtain st w rest where "st \<in> set stems" "x # xs = [] @ w @ rest"
          "list_all2 (literal_matches True) st w"
        unfolding stem_here_iff by auto
      then show ?thesis by blast
    next
      case 2
      with Cons obtain pre st w rest where "st \<in> set stems" "xs = pre @ w @ rest"
          "list_all2 (literal_matches True) st w"
        by blast
      then have "st \<in> set stems \<and> x # xs = (x # pre) @ w @ rest
          \<and> list_all2 (literal_matches True) st w"
        by simp
      then show ?thesis by blast
    qed
  next
    assume "\<exists>pre st w rest. st \<in> set stems \<and> x # xs = pre @ w @ rest
        \<and> list_all2 (literal_matches True) st w"
    then obtain pre st w rest where h: "st \<in> set stems" "x # xs = pre @ w @ rest"
        "list_all2 (literal_matches True) st w"
      by blast
    show "contains_stem (x # xs)"
    proof (cases pre)
      case Nil
      with h have "stem_here (x # xs)"
        unfolding stem_here_iff by auto
      then show ?thesis by simp
    next
      case (Cons y pre')
      with h have "xs = pre' @ w @ rest" by simp
      with h Cons.IH have "contains_stem xs" by blast
      then show ?thesis by simp
    qed
  qed
qed

lemma contains_stem_and_letter_iff:
  "contains_stem_and_letter s \<longleftrightarrow>
     (\<exists>pre st w x rest. st \<in> set stems \<and> s = pre @ w @ x # rest
        \<and> list_all2 (literal_matches True) st w \<and> letter_a_ya x)"
proof (induction s)
  case Nil
  then show ?case by simp
next
  case (Cons y ys)
  show ?case
  proof
    assume "contains_stem_and_letter (y # ys)"
    then consider "stem_and_letter_here (y # ys)" | "contains_stem_and_letter ys" by auto
    then show "\<exists>pre st w x rest. st \<in> set stems \<and> y # ys = pre @ w @ x # rest
        \<and> list_all2 (literal_matches True) st w \<and> letter_a_ya x"
    proof cases
      case 1
      then obtain st w x rest where "st \<in> set stems" "y # ys = [] @ w @ x # rest"
          "list_all2 (literal_matches True) st w" "letter_a_ya x"
        unfolding stem_and_letter_here_iff by auto
      then show ?thesis by blast
    next
      case 2
      with Cons obtain pre st w x rest where "st \<in> set stems" "ys = pre @ w @ x # rest"
          "list_all2 (literal_matches True) st w" "letter_a_ya x"
        by blast
      then have "st \<in> set stems \<and> y # ys = (y # pre) @ w @ x # rest
          \<and> list_all2 (literal_matches True) st w \<and> letter_a_ya x"
        by simp
      then show ?thesis by blast
    qed
  next
    assume "\<exists>pre st w x rest. st \<in> set stems \<and> y # ys = pre @ w @ x # rest
        \<and> list_all2 (literal_matches True) st w \<and> letter_a_ya x"
    then obtain pre st w x rest where h: "st \<in> set stems" "y # ys = pre @ w @ x # rest"
        "list_all2 (literal_matches True) st w" "letter_a_ya x"
      by blast
    show "contains_stem_and_letter (y # ys)"
    proof (cases pre)
      case Nil
      with h have "stem_and_letter_here (y # ys)"
        unfolding stem_and_letter_here_iff by auto
      then show ?thesis by simp
    next
      case (Cons z pre')
      with h have "ys = pre' @ w @ x # rest" by simp
      with h Cons.IH have "contains_stem_and_letter ys" by blast
      then show ?thesis by simp
    qed
  qed
qed

section \<open>The regular expressions: properties\<close>

text \<open>What the range of the pattern matches when case is ignored.\<close>

lemma tolower_small: "1072 \<le> c \<Longrightarrow> c \<le> 1103 \<Longrightarrow> unicode_tolower c = c"
  by (simp add: unicode_tolower_def)

lemma tolower_in_a_ya:
  "(1072 \<le> unicode_tolower x \<and> unicode_tolower x \<le> 1103) \<longleftrightarrow>
     (1072 \<le> x \<and> x \<le> 1103) \<or> (1040 \<le> x \<and> x \<le> 1071)"
  by (auto simp: unicode_tolower_def)

lemma tolower_in_variants:
  "(7296 \<le> unicode_tolower x \<and> unicode_tolower x \<le> 7302) \<longleftrightarrow> (7296 \<le> x \<and> x \<le> 7302)"
  by (auto simp: unicode_tolower_def)

lemma extra_cases_of_a_ya:
  "(\<exists>c. 1072 \<le> c \<and> c \<le> 1103 \<and> y \<in> set (extra_cases c)) \<longleftrightarrow> (7296 \<le> y \<and> y \<le> 7302)"
proof
  assume "\<exists>c. 1072 \<le> c \<and> c \<le> 1103 \<and> y \<in> set (extra_cases c)"
  then show "7296 \<le> y \<and> y \<le> 7302"
    by (auto simp: extra_cases_def split: if_splits)
next
  assume "7296 \<le> y \<and> y \<le> 7302"
  then consider "y = 7296" | "y = 7297" | "y = 7298" | "y = 7299" | "y = 7300" | "y = 7301"
    | "y = 7302"
    by arith
  then show "\<exists>c. 1072 \<le> c \<and> c \<le> 1103 \<and> y \<in> set (extra_cases c)"
  proof cases
    case 1 then show ?thesis by (intro exI [of _ 1074]) (simp add: extra_cases_def)
  next
    case 2 then show ?thesis by (intro exI [of _ 1076]) (simp add: extra_cases_def)
  next
    case 3 then show ?thesis by (intro exI [of _ 1086]) (simp add: extra_cases_def)
  next
    case 4 then show ?thesis by (intro exI [of _ 1089]) (simp add: extra_cases_def)
  next
    case 5 then show ?thesis by (intro exI [of _ 1090]) (simp add: extra_cases_def)
  next
    case 6 then show ?thesis by (intro exI [of _ 1090]) (simp add: extra_cases_def)
  next
    case 7 then show ?thesis by (intro exI [of _ 1098]) (simp add: extra_cases_def)
  qed
qed

lemma range_a_ya: "range_matches True 1072 1103 x = letter_a_ya x"
proof -
  have "range_matches True 1072 1103 x \<longleftrightarrow>
          (\<exists>c\<in>{1072 ..< Suc 1103}. literal_matches True c x)"
    by (simp only: range_matches_def list_ex_iff if_True set_upt)
  also have "\<dots> \<longleftrightarrow> (\<exists>c. 1072 \<le> c \<and> c \<le> 1103 \<and> literal_matches True c x)"
    by (simp only: Bex_def atLeastLessThan_iff less_Suc_eq_le conj_assoc)
  also have "\<dots> \<longleftrightarrow> (\<exists>c. 1072 \<le> c \<and> c \<le> 1103 \<and>
                 (unicode_tolower x = c \<or> unicode_tolower x \<in> set (extra_cases c)))"
    by (auto simp: literal_matches_def tolower_small)
  also have "\<dots> \<longleftrightarrow> (1072 \<le> unicode_tolower x \<and> unicode_tolower x \<le> 1103)
                 \<or> (\<exists>c. 1072 \<le> c \<and> c \<le> 1103 \<and> unicode_tolower x \<in> set (extra_cases c))"
    by blast
  also have "\<dots> \<longleftrightarrow> letter_a_ya x"
    unfolding extra_cases_of_a_ya tolower_in_a_ya tolower_in_variants letter_a_ya_def by blast
  finally show ?thesis .
qed

lemma matches_BRANCH_nonempty:
  "matches ic (BRANCH r1 r2) p \<noteq> [] \<longleftrightarrow> matches ic r1 p \<noteq> [] \<or> matches ic r2 p \<noteq> []"
  by simp

lemma matches_literals:
  "matches True (literals cs) (i, s) =
     (if starts_with cs s then [(i + length cs, drop (length cs) s)] else [])"
proof (induction cs arbitrary: i s)
  case Nil
  then show ?case by (simp add: literals_def)
next
  case (Cons c cs)
  have unfold: "literals (c # cs) = SEQ (LITERAL c) (literals cs)"
    by (simp add: literals_def)
  show ?case
  proof (cases s)
    case Nil
    then show ?thesis by (simp add: unfold)
  next
    case (Cons x xs)
    then show ?thesis using Cons.IH [of "Suc i" xs] by (simp add: unfold)
  qed
qed

lemma matches_stem_range:
  "matches True (SEQ (literals st) (RANGE 1072 1103)) (i, s) \<noteq> [] \<longleftrightarrow>
     starts_with st s \<and> (case drop (length st) s of [] \<Rightarrow> False | x # xs \<Rightarrow> letter_a_ya x)"
  by (simp add: matches_literals range_a_ya split: list.splits)

lemma stems_unfold: "stems = [stems ! 0, stems ! 1, stems ! 2]"
  by (simp add: stems_def)

lemma matches_message_pattern:
  "matches True message_pattern (i, s) \<noteq> [] \<longleftrightarrow> stem_and_letter_here s"
proof -
  have "stem_and_letter_here s \<longleftrightarrow>
     list_ex (\<lambda>st. starts_with st s \<and>
                   (case drop (length st) s of [] \<Rightarrow> False | x # xs \<Rightarrow> letter_a_ya x))
       [stems ! 0, stems ! 1, stems ! 2]"
    unfolding stem_and_letter_here_def using stems_unfold by simp
  then show ?thesis
    unfolding message_pattern_def
    using matches_stem_range [of "stems ! 0" i s] matches_stem_range [of "stems ! 1" i s]
      matches_stem_range [of "stems ! 2" i s]
    by (simp only: matches_BRANCH_nonempty list_ex_Cons_iff list_ex_Nil_iff simp_thms)
qed

lemma scan_nonempty:
  "scan True message_pattern i 0 s \<noteq> [] \<longleftrightarrow> contains_stem_and_letter s"
proof (induction s arbitrary: i)
  case Nil
  have "\<not> stem_and_letter_here []"
    by (simp add: stem_and_letter_here_def stems_def)
  then have "matches True message_pattern (i, []) = []"
    using matches_message_pattern [of i "[]"] by blast
  then show ?case by simp
next
  case (Cons x xs)
  show ?case
  proof (cases "matches True message_pattern (i, x # xs)")
    case Nil
    then have "\<not> stem_and_letter_here (x # xs)"
      using matches_message_pattern [of i "x # xs"] by simp
    then show ?thesis using Nil Cons.IH [of "Suc i"] by simp
  next
    case (Cons q qs)
    then have "stem_and_letter_here (x # xs)"
      using matches_message_pattern [of i "x # xs"] by simp
    then show ?thesis using Cons by (simp split: prod.splits)
  qed
qed

lemma validate_message_iff:
  "validate_message data = (if contains_stem_and_letter data then Inl bad_words else Inr data)"
  by (simp add: validate_message_def findall_def scan_nonempty)


lemma contains_stem_and_letter_contains_stem:
  "contains_stem_and_letter s \<Longrightarrow> contains_stem s"
proof (induction s)
  case Nil
  then show ?case by simp
next
  case (Cons x xs)
  have "stem_and_letter_here (x # xs) \<Longrightarrow> stem_here (x # xs)"
    by (auto simp: stem_and_letter_here_def stem_here_def list_ex_iff)
  with Cons show ?case by auto
qed

lemma Feedback_message_text:
  "Feedback_message (Some (JString m)) =
     (if length m < 10 then Inl string_too_short
      else if 500 < length m then Inl string_too_long
      else if contains_stem_and_letter m then Inl (value_error bad_words)
      else Inr m)"
  by (simp add: Feedback_message_def str_field_length_def str_field_def validate_message_iff)

lemma matches_SEQ_nonempty:
  "matches ic (SEQ r1 r2) p \<noteq> [] \<longleftrightarrow> (\<exists>q \<in> set (matches ic r1 p). matches ic r2 q \<noteq> [])"
  by auto

lemma matches_repeat_digit:
  "(j, rest) \<in> set (matches ic (MAX_REPEAT lo hi CATEGORY_DIGIT) (i, t)) \<longleftrightarrow>
     (\<exists>k. lo \<le> k \<and> k \<le> hi \<and> k \<le> length t \<and> list_all unicode_isdecimal (take k t)
          \<and> j = i + k \<and> rest = drop k t)"
proof (induction hi arbitrary: lo i t)
  case 0
  then show ?case by auto
next
  case (Suc hi)
  show ?case
  proof (cases t)
    case Nil
    then show ?thesis by auto
  next
    case (Cons x xs)
    show ?thesis
    proof (cases "unicode_isdecimal x")
      case False
      have "(\<exists>k. lo \<le> k \<and> k \<le> Suc hi \<and> k \<le> length t \<and> list_all unicode_isdecimal (take k t)
               \<and> j = i + k \<and> rest = drop k t) \<longleftrightarrow> (lo = 0 \<and> j = i \<and> rest = t)"
      proof
        assume "\<exists>k. lo \<le> k \<and> k \<le> Suc hi \<and> k \<le> length t
                  \<and> list_all unicode_isdecimal (take k t) \<and> j = i + k \<and> rest = drop k t"
        then obtain k where k: "lo \<le> k" "list_all unicode_isdecimal (take k t)"
            "j = i + k" "rest = drop k t"
          by blast
        have "k = 0"
        proof (cases k)
          case 0 then show ?thesis .
        next
          case (Suc k')
          with k(2) Cons False show ?thesis by simp
        qed
        with k show "lo = 0 \<and> j = i \<and> rest = t" by simp
      next
        assume "lo = 0 \<and> j = i \<and> rest = t"
        then show "\<exists>k. lo \<le> k \<and> k \<le> Suc hi \<and> k \<le> length t
                  \<and> list_all unicode_isdecimal (take k t) \<and> j = i + k \<and> rest = drop k t"
          by (intro exI [of _ 0]) simp
      qed
      with Cons False show ?thesis by auto
    next
      case True
      have lhs: "(j, rest) \<in> set (matches ic (MAX_REPEAT lo (Suc hi) CATEGORY_DIGIT) (i, t)) \<longleftrightarrow>
            (j, rest) \<in> set (matches ic (MAX_REPEAT (lo - 1) hi CATEGORY_DIGIT) (Suc i, xs))
            \<or> (lo = 0 \<and> j = i \<and> rest = t)"
        using Cons True by auto
      have rhs: "(\<exists>k. lo \<le> k \<and> k \<le> Suc hi \<and> k \<le> length t
                  \<and> list_all unicode_isdecimal (take k t) \<and> j = i + k \<and> rest = drop k t) \<longleftrightarrow>
            (\<exists>k'. lo - 1 \<le> k' \<and> k' \<le> hi \<and> k' \<le> length xs
                  \<and> list_all unicode_isdecimal (take k' xs) \<and> j = Suc i + k' \<and> rest = drop k' xs)
            \<or> (lo = 0 \<and> j = i \<and> rest = t)"
        (is "?L \<longleftrightarrow> ?A \<or> ?B")
      proof
        assume ?L
        then obtain k where k: "lo \<le> k" "k \<le> Suc hi" "k \<le> length t"
            "list_all unicode_isdecimal (take k t)" "j = i + k" "rest = drop k t"
          by blast
        show "?A \<or> ?B"
        proof (cases k)
          case 0
          with k show ?thesis by simp
        next
          case (Suc k')
          with k Cons have "lo - 1 \<le> k' \<and> k' \<le> hi \<and> k' \<le> length xs
              \<and> list_all unicode_isdecimal (take k' xs) \<and> j = Suc i + k' \<and> rest = drop k' xs"
            by auto
          then show ?thesis by blast
        qed
      next
        assume "?A \<or> ?B"
        then show ?L
        proof
          assume ?A
          then obtain k' where k': "lo - 1 \<le> k'" "k' \<le> hi" "k' \<le> length xs"
              "list_all unicode_isdecimal (take k' xs)" "j = Suc i + k'" "rest = drop k' xs"
            by blast
          with Cons True show ?L
            by (intro exI [of _ "Suc k'"]) auto
        next
          assume ?B
          then show ?L by (intro exI [of _ 0]) simp
        qed
      qed
      show ?thesis unfolding lhs rhs using Suc.IH [of "lo - 1" "Suc i" xs] by simp
    qed
  qed
qed

lemma matches_phone_pattern:
  "matches False phone_pattern (i, t) \<noteq> [] \<longleftrightarrow> i = 0 \<and> digits_between 7 15 t"
proof -
  have "matches False phone_pattern (i, t) \<noteq> [] \<longleftrightarrow>
          i = 0 \<and> (\<exists>q \<in> set (matches False (MAX_REPEAT 7 15 CATEGORY_DIGIT) (i, t)).
                     matches False AT_END q \<noteq> [])"
    unfolding phone_pattern_def matches_SEQ_nonempty by simp
  also have "\<dots> \<longleftrightarrow> i = 0 \<and> (\<exists>j. (j, []) \<in> set (matches False (MAX_REPEAT 7 15 CATEGORY_DIGIT) (i, t)))"
    by (auto simp del: matches.simps(9,10) simp add: Bex_def)
  also have "\<dots> \<longleftrightarrow> i = 0 \<and> digits_between 7 15 t"
    unfolding matches_repeat_digit digits_between_def
    by (auto intro: exI [of _ "length t"])
  finally show ?thesis .
qed

lemma is_match_phone_pattern: "is_match phone_pattern s \<longleftrightarrow> digits_between 7 15 s"
proof -
  have "is_match phone_pattern s \<longleftrightarrow>
          (\<exists>i \<in> set [0 ..< Suc (length s)]. i = 0 \<and> digits_between 7 15 (drop i s))"
    unfolding is_match_def list_ex_iff matches_phone_pattern ..
  also have "\<dots> \<longleftrightarrow> digits_between 7 15 s"
    by auto
  finally show ?thesis .
qed

section \<open>The validation layer: properties\<close>

text \<open>
  A record passes exactly when each of its fields passes, and it then holds the values
  of the fields.
\<close>

lemma Contact_validate_accepts:
  "Contact_validate EmailStr (JObject kvs) = Inr c \<longleftrightarrow>
     Contact_email EmailStr (field kvs ''email'') = Inr (Contact.email c)
     \<and> Contact_phone (field kvs ''phone'') = Inr (phone c)"
  by (cases c) (auto simp: Contact_validate_def Let_def split: sum.splits)

lemma Feedback_validate_accepts:
  "Feedback_validate EmailStr (JObject kvs) = Inr f \<longleftrightarrow>
     str_field_length 2 50 (field kvs ''name'') = Inr (name f)
     \<and> Feedback_message (field kvs ''message'') = Inr (message f)
     \<and> (\<exists>j. field kvs ''contact'' = Some j \<and> Contact_validate EmailStr j = Inr (contact f))"
  by (cases f) (auto simp: Feedback_validate_def Let_def split: sum.splits option.splits)

text \<open>
  C5, as the code has it. A message is rejected whenever it contains a blocklisted stem
  with a letter of the range right after it (a message outside the bounds of length is
  rejected for its length); a message of 9 characters is rejected as too short; a message
  of exactly 10 characters that contains no blocklisted stem is accepted.
\<close>

theorem feedback_message_verdicts:
  "(contains_stem_and_letter m \<longrightarrow> isl (Feedback_message (Some (JString m))))
   \<and> (length m = 9 \<longrightarrow> Feedback_message (Some (JString m)) = Inl string_too_short)
   \<and> (length m = 10 \<and> \<not> contains_stem m \<longrightarrow> Feedback_message (Some (JString m)) = Inr m)"
  using contains_stem_and_letter_contains_stem [of m]
  by (auto simp: Feedback_message_text)

theorem feedback_message_verdicts_witness:
  "isl (Feedback_message (Some (JString [1053, 1091, 32, 1080, 32, 1041, 1071, 1050, 1040, 32, 1090, 1099])))
   \<and> Feedback_message (Some (JString (ascii ''123456789''))) = Inl string_too_short
   \<and> Feedback_message (Some (JString (ascii ''0123456789''))) = Inr (ascii ''0123456789'')"
proof -
  have a: "contains_stem_and_letter [1053, 1091, 32, 1080, 32, 1041, 1071, 1050, 1040, 32, 1090, 1099]"
    by (simp add: stem_and_letter_here_def stems_def literal_matches_def unicode_tolower_def
          extra_cases_def letter_a_ya_def)
  have b: "length (ascii ''123456789'') = 9"
    by (simp add: ascii_def)
  have c: "length (ascii ''0123456789'') = 10 \<and> \<not> contains_stem (ascii ''0123456789'')"
    by (simp add: ascii_def stem_here_def stems_def literal_matches_def unicode_tolower_def
          extra_cases_def)
  from feedback_message_verdicts [of "[1053, 1091, 32, 1080, 32, 1041, 1071, 1050, 1040, 32, 1090, 1099]"]
    feedback_message_verdicts [of "ascii ''123456789''"]
    feedback_message_verdicts [of "ascii ''0123456789''"] a b c
  show ?thesis by blast
qed

text \<open>
  C5 as stated fails: the message of 10 characters that reads, in Russian, \<open>ty redisk!\<close>
  contains the first stem, with an exclamation mark after it, and is accepted.
\<close>

theorem stem_without_letter_is_accepted:
  "contains_stem [1090, 1099, 32, 1088, 1077, 1076, 1080, 1089, 1082, 33]
   \<and> Feedback_message (Some (JString [1090, 1099, 32, 1088, 1077, 1076, 1080, 1089, 1082, 33])) =
       Inr [1090, 1099, 32, 1088, 1077, 1076, 1080, 1089, 1082, 33]"
proof -
  have "contains_stem [1090, 1099, 32, 1088, 1077, 1076, 1080, 1089, 1082, 33]"
    by (simp add: stem_here_def stems_def literal_matches_def unicode_tolower_def extra_cases_def)
  moreover have "\<not> contains_stem_and_letter [1090, 1099, 32, 1088, 1077, 1076, 1080, 1089, 1082, 33]"
    by (simp add: stem_and_letter_here_def stems_def literal_matches_def unicode_tolower_def
          extra_cases_def letter_a_ya_def)
  ultimately show ?thesis by (simp add: Feedback_message_text)
qed

text \<open>
  C9. \<open>validate_message\<close> rejects a message only when the message contains a blocklisted
  stem with a letter of the range right after it, and lets every other message pass; so
  a message within the bounds of length in which no blocklisted stem has such a letter
  right after it (a stem at the very end of the message, say) passes the validation of
  the field.
\<close>

theorem filter_needs_letter_after_stem:
  "(validate_message m = Inl e \<longrightarrow> contains_stem_and_letter m)
   \<and> (\<not> contains_stem_and_letter m \<longrightarrow> validate_message m = Inr m)
   \<and> (10 \<le> length m \<and> length m \<le> 500 \<and> \<not> contains_stem_and_letter m \<longrightarrow>
        Feedback_message (Some (JString m)) = Inr m)"
  by (simp add: validate_message_iff Feedback_message_text)

theorem filter_needs_letter_after_stem_witness:
  "contains_stem [1101, 1090, 1086, 32, 1088, 1077, 1076, 1080, 1089, 1082]
   \<and> validate_message [1101, 1090, 1086, 32, 1088, 1077, 1076, 1080, 1089, 1082] =
       Inr [1101, 1090, 1086, 32, 1088, 1077, 1076, 1080, 1089, 1082]
   \<and> Feedback_message (Some (JString [1101, 1090, 1086, 32, 1088, 1077, 1076, 1080, 1089, 1082])) =
       Inr [1101, 1090, 1086, 32, 1088, 1077, 1076, 1080, 1089, 1082]
   \<and> validate_message [1089, 1072, 1084, 32, 1088, 1077, 1076, 1080, 1089, 1082, 1072] = Inl bad_words
   \<and> contains_stem_and_letter [1089, 1072, 1084, 32, 1088, 1077, 1076, 1080, 1089, 1082, 1072]"
proof -
  let ?m = "[1101, 1090, 1086, 32, 1088, 1077, 1076, 1080, 1089, 1082] :: pystr"
  let ?w = "[1089, 1072, 1084, 32, 1088, 1077, 1076, 1080, 1089, 1082, 1072] :: pystr"
  have a: "contains_stem ?m"
    by (simp add: stem_here_def stems_def literal_matches_def unicode_tolower_def extra_cases_def)
  have b: "\<not> contains_stem_and_letter ?m"
    by (simp add: stem_and_letter_here_def stems_def literal_matches_def unicode_tolower_def
          extra_cases_def letter_a_ya_def)
  have c: "validate_message ?w = Inl bad_words"
    by (simp add: validate_message_def findall_def message_pattern_def stems_def literals_def
          literal_matches_def range_matches_def unicode_tolower_def extra_cases_def)
  from filter_needs_letter_after_stem [of ?m] filter_needs_letter_after_stem [of ?w bad_words] a b c
  show ?thesis by simp
qed

text \<open>
  C6. The phone of five digits is rejected, the phone of seven digits is accepted, a
  phone left out is accepted; the field passes exactly when it is left out, is \<open>null\<close>,
  or is a text that the pattern matches; the pattern matches exactly the texts of 7 to 15
  decimal digits; and a \<open>Contact\<close> whose phone is rejected is rejected.
\<close>

theorem contact_phone_verdicts:
  "Contact_phone (Some (JString (ascii ''12345''))) = Inl string_pattern_mismatch
   \<and> Contact_phone (Some (JString (ascii ''1234567''))) = Inr (Some (ascii ''1234567''))
   \<and> Contact_phone None = Inr None
   \<and> ((\<exists>p. Contact_phone raw = Inr p) \<longleftrightarrow>
        raw = None \<or> raw = Some JNull \<or> (\<exists>s. raw = Some (JString s) \<and> is_match phone_pattern s))
   \<and> (is_match phone_pattern s \<longleftrightarrow> digits_between 7 15 s)
   \<and> (isl (Contact_phone (field kvs ''phone'')) \<longrightarrow> isl (Contact_validate EmailStr (JObject kvs)))"
proof -
  have 1: "Contact_phone (Some (JString (ascii ''12345''))) = Inl string_pattern_mismatch"
    by (simp add: Contact_phone_def is_match_phone_pattern digits_between_def ascii_def)
  have 2: "Contact_phone (Some (JString (ascii ''1234567''))) = Inr (Some (ascii ''1234567''))"
    by (simp add: Contact_phone_def is_match_phone_pattern digits_between_def ascii_def
          unicode_isdecimal_def decimal_digit_ranges_def)
  have 3: "Contact_phone None = Inr None"
    by (simp add: Contact_phone_def)
  have 4: "(\<exists>p. Contact_phone raw = Inr p) \<longleftrightarrow>
        raw = None \<or> raw = Some JNull \<or> (\<exists>s. raw = Some (JString s) \<and> is_match phone_pattern s)"
    by (auto simp: Contact_phone_def split: option.splits json.splits)
  have 5: "isl (Contact_phone (field kvs ''phone'')) \<longrightarrow> isl (Contact_validate EmailStr (JObject kvs))"
    by (auto simp: Contact_validate_def Let_def split: sum.splits)
  from 1 2 3 4 5 is_match_phone_pattern [of s] show ?thesis by blast
qed

theorem contact_phone_verdicts_witness:
  "Contact_phone (Some (JString (ascii ''12345''))) = Inl string_pattern_mismatch
   \<and> Contact_phone (Some (JString (ascii ''1234567''))) = Inr (Some (ascii ''1234567''))
   \<and> Contact_phone None = Inr None
   \<and> (\<exists>p. Contact_phone (Some (JString (ascii ''123456789012345''))) = Inr p)
   \<and> \<not> is_match phone_pattern (ascii ''1234567890123456'')
   \<and> isl (Contact_validate (\<lambda>a. Some a)
            (JObject [(''email'', JString (ascii ''a@example.com'')),
                      (''phone'', JString (ascii ''12345''))]))"
proof -
  have a: "is_match phone_pattern (ascii ''123456789012345'')"
    by (simp add: is_match_phone_pattern digits_between_def ascii_def
          unicode_isdecimal_def decimal_digit_ranges_def)
  have b: "\<not> digits_between 7 15 (ascii ''1234567890123456'')"
    by (simp add: digits_between_def ascii_def)
  have c: "isl (Contact_phone (field [(''email'', JString (ascii ''a@example.com'')),
                      (''phone'', JString (ascii ''12345''))] ''phone''))"
    by (simp add: field_def Contact_phone_def is_match_phone_pattern digits_between_def ascii_def)
  from contact_phone_verdicts
    [where raw = "Some (JString (ascii ''123456789012345''))"
       and s = "ascii ''1234567890123456''"
       and kvs = "[(''email'', JString (ascii ''a@example.com'')),
                      (''phone'', JString (ascii ''12345''))]"
       and EmailStr = "\<lambda>a. Some a"] a b c
  show ?thesis by blast
qed

text \<open>
  C7 as stated fails: a body whose \<open>username\<close> is the empty text passes validation, on
  \<open>POST /users/\<close> the row is inserted and on \<open>PUT /users/1\<close> the row is overwritten.
\<close>

theorem empty_username_is_stored:
  "post_users empty_database
     (JObject [(''username'', JString []), (''email'', JString (ascii ''a@example.com''))]) =
     (Inr (Inr \<lparr>username = [], UserBase.email = ascii ''a@example.com'', UserReturn.id' = 1\<rparr>),
      empty_database\<lparr>users := [1 \<mapsto> \<lparr>username = [], UserBase.email = ascii ''a@example.com''\<rparr>],
                     users_id_seq := 2\<rparr>)
   \<and> put_users (empty_database\<lparr>users := [1 \<mapsto> alice]\<rparr>) 1
     (JObject [(''username'', JString []), (''email'', JString (ascii ''a@example.com''))]) =
     (Inr (Inr \<lparr>username = [], UserBase.email = ascii ''a@example.com'', UserReturn.id' = 1\<rparr>),
      empty_database\<lparr>users := [1 \<mapsto> \<lparr>username = [], UserBase.email = ascii ''a@example.com''\<rparr>]\<rparr>)"
  by (simp add: post_users_def put_users_def UserCreate_validate_def field_def str_field_def
        create_user_def update_user_def execute_insert_users_def execute_update_users_def
        storage_error_def in_range_def empty_database_def Let_def)

text \<open>
  C7, as the code has it. \<open>username\<close> must be text, which may be empty: when the
  \<open>username\<close> of the body is missing or is not text, validation fails with an error at
  \<open>username\<close>, and creating and updating answer with these errors and leave the store as
  it was; when \<open>username\<close> and \<open>email\<close> are both text, whatever their length, validation
  yields the record of the two.
\<close>

theorem username_must_be_text:
  "(\<not> is_text (field kvs ''username'') \<longrightarrow>
      (\<exists>errs. UserCreate_validate (JObject kvs) = Inl errs
             \<and> (\<exists>t. ([''username''], t) \<in> set errs)
             \<and> post_users db (JObject kvs) = (Inl errs, db)
             \<and> put_users db i (JObject kvs) = (Inl errs, db)))
   \<and> (field kvs ''username'' = Some (JString s) \<and> field kvs ''email'' = Some (JString e) \<longrightarrow>
      UserCreate_validate (JObject kvs) = Inr \<lparr>username = s, UserBase.email = e\<rparr>)"
proof -
  have "\<not> is_text (field kvs ''username'') \<Longrightarrow> \<exists>t. str_field (field kvs ''username'') = Inl t"
    by (auto simp: is_text_def str_field_def split: option.splits json.splits)
  then have "\<not> is_text (field kvs ''username'') \<Longrightarrow>
      (\<exists>errs. UserCreate_validate (JObject kvs) = Inl errs
             \<and> (\<exists>t. ([''username''], t) \<in> set errs))"
    by (auto simp: UserCreate_validate_def Let_def errors_at_def split: sum.splits)
  moreover have "\<And>errs. UserCreate_validate (JObject kvs) = Inl errs \<Longrightarrow>
      post_users db (JObject kvs) = (Inl errs, db) \<and> put_users db i (JObject kvs) = (Inl errs, db)"
    by (simp add: post_users_def put_users_def)
  moreover have "field kvs ''username'' = Some (JString s) \<and> field kvs ''email'' = Some (JString e) \<longrightarrow>
      UserCreate_validate (JObject kvs) = Inr \<lparr>username = s, UserBase.email = e\<rparr>"
    by (simp add: UserCreate_validate_def str_field_def)
  ultimately show ?thesis by blast
qed

theorem username_must_be_text_witness:
  "post_users (empty_database\<lparr>users := [1 \<mapsto> alice]\<rparr>) (JObject [(''username'', JNumber 5), (''email'', JString (ascii ''a@example.com''))]) =
     (Inl [([''username''], string_type)], empty_database\<lparr>users := [1 \<mapsto> alice]\<rparr>)
   \<and> put_users (empty_database\<lparr>users := [1 \<mapsto> alice]\<rparr>) 1 (JObject [(''username'', JNumber 5), (''email'', JString (ascii ''a@example.com''))]) =
     (Inl [([''username''], string_type)], empty_database\<lparr>users := [1 \<mapsto> alice]\<rparr>)
   \<and> UserCreate_validate (JObject [(''username'', JString []), (''email'', JString (ascii ''a@example.com''))]) =
       Inr \<lparr>username = [], UserBase.email = ascii ''a@example.com''\<rparr>"
proof -
  let ?bad = "[(''username'', JNumber 5), (''email'', JString (ascii ''a@example.com''))]"
  let ?ok = "[(''username'', JString []), (''email'', JString (ascii ''a@example.com''))]"
  let ?db = "empty_database\<lparr>users := [1 \<mapsto> alice]\<rparr>"
  have a: "\<not> is_text (field ?bad ''username'')"
    by (simp add: is_text_def field_def)
  have b: "field ?ok ''username'' = Some (JString []) \<and> field ?ok ''email'' = Some (JString (ascii ''a@example.com''))"
    by (simp add: field_def)
  have c: "UserCreate_validate (JObject ?bad) = Inl [([''username''], string_type)]"
    by (simp add: UserCreate_validate_def field_def str_field_def errors_at_def)
  from username_must_be_text [where kvs = ?bad and db = ?db and i = 1]
    username_must_be_text [where kvs = ?ok and s = "[]" and e = "ascii ''a@example.com''"] a b c
  show ?thesis by auto
qed

end
